theory Spec2Isabelle
  imports Main "HOL-Library.Char_ord" "HOL-Library.List_Lexorder"
begin

section \<open>Python strings\<close>

text \<open>
  A Python \<open>str\<close> is modelled as a \<^typ>\<open>string\<close>; a \<^typ>\<open>char\<close> stands for one code
  point in the range 0..255.  \<open>str.strip()\<close> without argument removes the characters
  for which \<open>str.isspace\<close> holds; in this range these are U+0009..U+000D,
  U+001C..U+0020, U+0085 and U+00A0.
\<close>

definition isspace :: "char \<Rightarrow> bool" where
  "isspace c \<longleftrightarrow>
     c \<in> set [CHR 0x09, CHR 0x0A, CHR 0x0B, CHR 0x0C, CHR 0x0D,
              CHR 0x1C, CHR 0x1D, CHR 0x1E, CHR 0x1F, CHR 0x20, CHR 0x85, CHR 0xA0]"

definition py_lstrip :: "string \<Rightarrow> string" where
  "py_lstrip s = dropWhile isspace s"

definition py_rstrip :: "string \<Rightarrow> string" where
  "py_rstrip s = rev (dropWhile isspace (rev s))"

definition py_strip :: "string \<Rightarrow> string" where
  "py_strip s = py_rstrip (py_lstrip s)"

text \<open>\<open>sub in s\<close> on strings: \<open>sub\<close> occurs in \<open>s\<close> as a contiguous substring.\<close>

fun startswith :: "string \<Rightarrow> string \<Rightarrow> bool" where
  "startswith s [] = True"
| "startswith [] (p # ps) = False"
| "startswith (c # cs) (p # ps) = (c = p \<and> startswith cs ps)"

fun py_in :: "string \<Rightarrow> string \<Rightarrow> bool" where
  "py_in sub [] = (sub = [])"
| "py_in sub (c # cs) = (startswith (c # cs) sub \<or> py_in sub cs)"

section \<open>Sanitizer: \<open>sanitize_filename\<close>\<close>

text \<open>
  The character class of the regular expression \<open>[<>:"/\\|?*]\<close>: nine characters, the
  double quote being U+0022 and the backslash U+005C.
\<close>

definition invalid_chars :: "char list" where
  "invalid_chars =
     [CHR ''<'', CHR ''>'', CHR '':'', CHR 0x22, CHR ''/'', CHR 0x5C, CHR ''|'', CHR ''?'', CHR ''*'']"

text \<open>\<open>re.sub(r'[<>:"/\\|?*]', '_', s)\<close>: every match is a single character.\<close>

definition re_sub_invalid :: "string \<Rightarrow> string" where
  "re_sub_invalid s = map (\<lambda>c. if c \<in> set invalid_chars then CHR ''_'' else c) s"

definition sanitize_filename :: "string \<Rightarrow> string" where
  "sanitize_filename filename = py_strip (re_sub_invalid filename)"

section \<open>Python values and dictionaries\<close>

text \<open>
  The values that occur in a survey record: \<open>None\<close>, strings, other scalars
  (represented by integers) and nested dictionaries.  A \<open>dict\<close> keeps its keys in
  insertion order, so it is an association list; \<open>d[k] = v\<close> overwrites the value of
  an existing key in place and appends a new key at the end.
\<close>

datatype pyval = PNone | PStr string | PInt int | PDict "(string \<times> pyval) list"

type_synonym pydict = "(string \<times> pyval) list"

datatype exn = OSError | TypeError | AttributeError | KeyError

fun dict_set :: "('k \<times> 'v) list \<Rightarrow> 'k \<Rightarrow> 'v \<Rightarrow> ('k \<times> 'v) list" where
  "dict_set [] k v = [(k, v)]"
| "dict_set ((k', v') # d) k v =
     (if k' = k then (k', v) # d else (k', v') # dict_set d k v)"

text \<open>\<open>dict(items)\<close>: the pairs are inserted from left to right.\<close>

definition dict_of_items :: "('k \<times> 'v) list \<Rightarrow> ('k \<times> 'v) list" where
  "dict_of_items items = foldl (\<lambda>d (k, v). dict_set d k v) [] items"

text \<open>\<open>d.get(k, default)\<close> where \<open>d\<close> is any value: \<open>None\<close> has no attribute \<open>get\<close>.\<close>

definition py_get :: "pyval \<Rightarrow> string \<Rightarrow> pyval \<Rightarrow> exn + pyval" where
  "py_get d k dflt =
     (case d of
        PDict m \<Rightarrow> Inr (case map_of m k of None \<Rightarrow> dflt | Some v \<Rightarrow> v)
      | _ \<Rightarrow> Inl AttributeError)"

definition py_getitem :: "pydict \<Rightarrow> string \<Rightarrow> exn + pyval" where
  "py_getitem d k = (case map_of d k of None \<Rightarrow> Inl KeyError | Some v \<Rightarrow> Inr v)"

section \<open>Flattener: \<open>flatten_nested_dict\<close>\<close>

text \<open>The leaf test of lines 56-57: \<open>None\<close> and blank strings become \<open>'N/A'\<close>.\<close>

fun na_if_blank :: "pyval \<Rightarrow> pyval" where
  "na_if_blank PNone = PStr ''N/A''"
| "na_if_blank (PStr s) = (if py_strip s = [] then PStr ''N/A'' else PStr s)"
| "na_if_blank v = v"

text \<open>Line 49: an empty \<open>parent_key\<close> is falsy.\<close>

definition new_key :: "string \<Rightarrow> string \<Rightarrow> string \<Rightarrow> string" where
  "new_key parent_key sep k = (if parent_key \<noteq> [] then parent_key @ sep @ k else k)"

text \<open>
  \<open>flatten_items\<close> is the \<open>for\<close> loop that fills \<open>items\<close>; every call of
  \<open>flatten_nested_dict\<close>, the recursive ones included, ends with \<open>dict(items)\<close>.
\<close>

fun flatten_nested_dict :: "pydict \<Rightarrow> string \<Rightarrow> string \<Rightarrow> pydict"
  and flatten_items :: "pydict \<Rightarrow> string \<Rightarrow> string \<Rightarrow> (string \<times> pyval) list" where
  "flatten_nested_dict nested_dict parent_key sep =
     dict_of_items (flatten_items nested_dict parent_key sep)"
| "flatten_items [] parent_key sep = []"
| "flatten_items ((k, PDict d) # rest) parent_key sep =
     flatten_nested_dict d (new_key parent_key sep k) sep @ flatten_items rest parent_key sep"
| "flatten_items ((k, v) # rest) parent_key sep =
     (new_key parent_key sep k, na_if_blank v) # flatten_items rest parent_key sep"

subsection \<open>The flattener as the specification words it\<close>

text \<open>The scalar leaves of a nested mapping in depth-first order, each with its path of keys.\<close>

fun leaves :: "pydict \<Rightarrow> (string list \<times> pyval) list" where
  "leaves [] = []"
| "leaves ((k, PDict d) # rest) = map (\<lambda>(p, v). (k # p, v)) (leaves d) @ leaves rest"
| "leaves ((k, v) # rest) = ([k], v) # leaves rest"

text \<open>The compound key of a path: \<open>prefix + sep + key\<close> when a prefix exists, else \<open>key\<close>.\<close>

fun compound_key :: "string \<Rightarrow> string \<Rightarrow> string list \<Rightarrow> string" where
  "compound_key prefix sep [] = prefix"
| "compound_key prefix sep (k # ks) =
     compound_key (if prefix = [] then k else prefix @ sep @ k) sep ks"

text \<open>The sentinel replaces \<open>None\<close> and whitespace-only strings.\<close>

definition sentinel :: "pyval \<Rightarrow> pyval" where
  "sentinel v =
     (case v of
        PNone \<Rightarrow> PStr ''N/A''
      | PStr s \<Rightarrow> if list_all isspace s then PStr ''N/A'' else PStr s
      | _ \<Rightarrow> v)"

definition flatten_spec :: "pydict \<Rightarrow> string \<Rightarrow> string \<Rightarrow> (string \<times> pyval) list" where
  "flatten_spec d prefix sep = map (\<lambda>(p, v). (compound_key prefix sep p, sentinel v)) (leaves d)"

section \<open>Column Orderer (lines 99-115 of \<open>save_survey_data\<close>)\<close>

definition sections :: "string list" where
  "sections =
     [''ashram_name'',
      ''Property Ownership and Legal Documents'',
      ''Trust/Society Details & Documents'',
      ''Institutions Details & Documents'']"

text \<open>
  The loop over the sections extends \<open>column_order\<close> with the sorted matches of each
  section; \<open>sorted\<close> compares strings code point by code point.
\<close>

fun add_sections :: "string list \<Rightarrow> string list \<Rightarrow> string list \<Rightarrow> string list" where
  "add_sections columns [] column_order = column_order"
| "add_sections columns (section # rest) column_order =
     add_sections columns rest (column_order @ sort (filter (py_in section) columns))"

definition order_columns :: "string list \<Rightarrow> string list" where
  "order_columns columns =
     (let column_order = add_sections columns sections [''timestamp''];
          remaining_columns = filter (\<lambda>col. col \<notin> set column_order) columns
      in column_order @ remaining_columns)"

section \<open>Clock and \<open>strftime\<close>\<close>

record datetime =
  year :: nat
  month :: nat
  day :: nat
  hour :: nat
  minute :: nat
  second :: nat

definition digit :: "nat \<Rightarrow> char" where
  "digit n = ''0123456789'' ! (n mod 10)"

text \<open>The decimal numeral of a number, without padding.\<close>

function str_nat :: "nat \<Rightarrow> string" where
  "str_nat n = (if n < 10 then [digit n] else str_nat (n div 10) @ [digit n])"
  by pat_completeness auto
termination
  by (relation "measure (\<lambda>n. n)") auto

declare str_nat.simps [simp del]

definition two_digits :: "nat \<Rightarrow> string" where
  "two_digits n = (if n < 10 then CHR ''0'' # str_nat n else str_nat n)"

text \<open>
  The directives the program uses, as the C library of a Linux system prints them:
  \<open>%m\<close>, \<open>%d\<close>, \<open>%H\<close>, \<open>%M\<close> and \<open>%S\<close> with two digits, zero padded, and \<open>%Y\<close> as
  the decimal numeral of the year, which has four digits from the year 1000 on.
\<close>

definition directive :: "datetime \<Rightarrow> char \<Rightarrow> string" where
  "directive t c =
     (if c = CHR ''Y'' then str_nat (year t)
      else if c = CHR ''m'' then two_digits (month t)
      else if c = CHR ''d'' then two_digits (day t)
      else if c = CHR ''H'' then two_digits (hour t)
      else if c = CHR ''M'' then two_digits (minute t)
      else if c = CHR ''S'' then two_digits (second t)
      else [CHR ''%'', c])"

fun strftime :: "datetime \<Rightarrow> string \<Rightarrow> string" where
  "strftime t [] = []"
| "strftime t [c] = [c]"
| "strftime t (c # d # rest) =
     (if c = CHR ''%'' then directive t d @ strftime t rest else c # strftime t (d # rest))"

section \<open>Record Store: \<open>save_survey_data\<close>\<close>

definition SURVEY_RESULTS_DIR :: string where
  "SURVEY_RESULTS_DIR = ''survey_results''"

text \<open>\<open>os.path.join\<close> of two components on a POSIX system.\<close>

definition os_path_join :: "string \<Rightarrow> string \<Rightarrow> string" where
  "os_path_join a b =
     (if startswith b ''/'' then b
      else if a = [] \<or> last a = CHR ''/'' then a @ b
      else a @ ''/'' @ b)"

text \<open>
  The environment of one call: whether \<open>os.makedirs\<close>, \<open>df.to_excel\<close> and reading the
  file back raise, and the two readings of the clock (lines 78 and 87).
\<close>

record env =
  makedirs_error :: "exn option"
  now_stamp :: datetime
  now_file :: datetime
  to_excel_error :: "exn option"
  read_error :: "exn option"

text \<open>A spreadsheet with its header row and its single data row.\<close>

record sheet =
  header :: "string list"
  row :: "pyval list"

datatype message = Saved string | Error_saving exn

text \<open>
  What a call leaves behind: the caller's dictionary after the call, the file path built
  on line 89 (if the call got there), the file written by \<open>to_excel\<close> (if any), the
  messages shown to the user, and the result: \<open>Inr b\<close> when the call returns \<open>b\<close>,
  \<open>Inl e\<close> when exception \<open>e\<close> leaves the function.
\<close>

record outcome =
  survey_data_after :: pydict
  file_path :: "string option"
  written :: "sheet option"
  shown :: "message list"
  returned :: "exn + bool"

text \<open>
  Lines 93-118: the one-row table with its columns reordered.  Selecting a column that
  the table does not have raises \<open>KeyError\<close>; a column selected twice appears twice.
\<close>

definition build_table :: "pydict \<Rightarrow> exn + sheet" where
  "build_table survey_data =
     (let flat_entry = flatten_nested_dict survey_data [] ''_'';
          column_order = order_columns (map fst flat_entry)
      in case those (map (map_of flat_entry) column_order) of
           None \<Rightarrow> Inl KeyError
         | Some cells \<Rightarrow> Inr \<lparr>header = column_order, row = cells\<rparr>)"

text \<open>The body of the \<open>try\<close> statement (lines 92-132) with its handler (lines 133-135).\<close>

definition try_save :: "env \<Rightarrow> pydict \<Rightarrow> string \<Rightarrow> string \<Rightarrow> outcome" where
  "try_save e survey_data filename path =
     (case build_table survey_data of
        Inl x \<Rightarrow>
          \<lparr>survey_data_after = survey_data, file_path = Some path, written = None,
           shown = [Error_saving x], returned = Inr False\<rparr>
      | Inr df \<Rightarrow>
         (case to_excel_error e of
            Some x \<Rightarrow>
              \<lparr>survey_data_after = survey_data, file_path = Some path, written = None,
               shown = [Error_saving x], returned = Inr False\<rparr>
          | None \<Rightarrow>
             (case read_error e of
                Some x \<Rightarrow>
                  \<lparr>survey_data_after = survey_data, file_path = Some path, written = Some df,
                   shown = [Error_saving x], returned = Inr False\<rparr>
              | None \<Rightarrow>
                  \<lparr>survey_data_after = survey_data, file_path = Some path, written = Some df,
                   shown = [Saved filename], returned = Inr True\<rparr>)))"

definition save_survey_data :: "env \<Rightarrow> pydict \<Rightarrow> outcome" where
  "save_survey_data e survey_data =
     (case makedirs_error e of
        Some x \<Rightarrow>
          \<lparr>survey_data_after = survey_data, file_path = None, written = None,
           shown = [], returned = Inl x\<rparr>
      | None \<Rightarrow>
         (let survey_data =
                dict_set survey_data ''timestamp''
                  (PStr (strftime (now_stamp e) ''%Y-%m-%d %H:%M:%S''));
              ashram_name =
                (case map_of survey_data ''ashram_name'' of
                   None \<Rightarrow> PStr ''Unknown_Ashram''
                 | Some v \<Rightarrow> v)
          in case ashram_name of
               PStr name \<Rightarrow>
                 (let safe_ashram_name = sanitize_filename name;
                      timestamp = strftime (now_file e) ''%Y%m%d_%H%M%S'';
                      filename = safe_ashram_name @ ''_'' @ timestamp @ ''.xlsx''
                  in try_save e survey_data filename (os_path_join SURVEY_RESULTS_DIR filename))
             | _ \<Rightarrow>
                 \<lparr>survey_data_after = survey_data, file_path = None, written = None,
                  shown = [], returned = Inl TypeError\<rparr>))"

section \<open>Survey Controller\<close>

text \<open>The widgets of the page, read by their keys.\<close>

record widgets =
  text_input :: "string \<Rightarrow> string"
  file_uploader :: "string \<Rightarrow> string option"
  text_area :: "string \<Rightarrow> string"
  selectbox :: "string \<Rightarrow> string"

definition input_section :: "widgets \<Rightarrow> string \<Rightarrow> bool \<Rightarrow> pyval" where
  "input_section w key add_comment =
     PDict ([(''number_of_documents'', PStr (text_input w key))]
            @ (case file_uploader w (key @ ''_upload'') of
                 None \<Rightarrow> []
               | Some name \<Rightarrow> [(''uploaded_file_name'', PStr name)])
            @ (if add_comment
               then [(''additional_comments'', PStr (text_area w (key @ ''_comment'')))]
               else []))"

definition property_survey :: "widgets \<Rightarrow> pydict" where
  "property_survey w =
     [(''ashram_name'', PStr (text_input w ''ashram_name'')),
      (''land_title'', input_section w ''land_title'' True),
      (''property_tax'', input_section w ''property_tax'' True),
      (''land_survey'', input_section w ''land_survey'' True),
      (''mutation_cert'', input_section w ''mutation_cert'' True),
      (''land_na'', input_section w ''land_na'' True),
      (''registration_details'', input_section w ''registration_details'' True),
      (''building_permit'', input_section w ''building_permit'' True),
      (''occupancy_cert'', input_section w ''occupancy_cert'' True),
      (''approved_plans'', input_section w ''approved_plans'' True),
      (''renovation_approvals'', input_section w ''renovation_approvals'' True)]"



text \<open>
  \<open>st.session_state.survey_data\<close>: the three section slots, \<open>None\<close> at first (lines
  252-256); visiting a section stores its answers in its slot (line 275).
\<close>

definition session :: "pyval \<Rightarrow> pyval \<Rightarrow> pyval \<Rightarrow> pydict" where
  "session p t i =
     [(''Property Ownership and Legal Documents'', p),
      (''Trust/Society Details & Documents'', t),
      (''Institutions Details & Documents'', i)]"

definition initial_session :: pydict where
  "initial_session = session PNone PNone PNone"

definition visit :: "pydict \<Rightarrow> string \<Rightarrow> pydict \<Rightarrow> pydict" where
  "visit survey_data choice answers = dict_set survey_data choice (PDict answers)"

text \<open>Lines 280-285: the record that the submit button hands to the Record Store.\<close>

definition final_survey_data :: "pydict \<Rightarrow> exn + pydict" where
  "final_survey_data survey_data =
     (case py_getitem survey_data ''Property Ownership and Legal Documents'' of
        Inl x \<Rightarrow> Inl x
      | Inr p \<Rightarrow>
         (case py_get p ''ashram_name'' (PStr ''N/A'') of
            Inl x \<Rightarrow> Inl x
          | Inr name \<Rightarrow>
             (case py_getitem survey_data ''Trust/Society Details & Documents'' of
                Inl x \<Rightarrow> Inl x
              | Inr t \<Rightarrow>
                 (case py_getitem survey_data ''Institutions Details & Documents'' of
                    Inl x \<Rightarrow> Inl x
                  | Inr i \<Rightarrow>
                      Inr [(''ashram_name'', name),
                           (''Property Ownership and Legal Documents'', p),
                           (''Trust/Society Details & Documents'', t),
                           (''Institutions Details & Documents'', i)]))))"

text \<open>
  The submit action (lines 278-288): \<open>Inl x\<close> when building the record raises \<open>x\<close>,
  otherwise what \<open>save_survey_data\<close> leaves behind.
\<close>

definition submit :: "env \<Rightarrow> pydict \<Rightarrow> exn + outcome" where
  "submit e survey_data =
     (case final_survey_data survey_data of
        Inl x \<Rightarrow> Inl x
      | Inr final \<Rightarrow> Inr (save_survey_data e final))"

subsection \<open>One run of \<open>main\<close>\<close>

text \<open>
  The session state that \<open>main\<close> reads and writes: the flag \<open>survey_started\<close> and the
  entry \<open>survey_data\<close>, which is absent until line 252 creates it.
\<close>

record session_state =
  survey_started :: bool
  survey_data :: "pydict option"








subsection \<open>A concrete session\<close>

text \<open>
  A clock reading, an environment in which every file operation succeeds, and a page on
  which only the name of the ashram has been filled in.
\<close>

definition clock0 :: datetime where
  "clock0 = \<lparr>year = 2024, month = 1, day = 2, hour = 3, minute = 4, second = 5\<rparr>"

definition env_ok :: env where
  "env_ok =
     \<lparr>makedirs_error = None, now_stamp = clock0, now_file = clock0,
      to_excel_error = None, read_error = None\<rparr>"

definition widgets0 :: widgets where
  "widgets0 =
     \<lparr>text_input = (\<lambda>key. if key = ''ashram_name'' then ''St. Mary'' else []),
      file_uploader = (\<lambda>key. None),
      text_area = (\<lambda>key. []),
      selectbox = (\<lambda>key. ''Schools'')\<rparr>"

text \<open>
  A page on which nothing has been filled in, and three runs: the click on the start
  button, the first display of the survey page, and a click on the submit button.
\<close>

definition widgets_blank :: widgets where
  "widgets_blank =
     \<lparr>text_input = (\<lambda>key. []),
      file_uploader = (\<lambda>key. None),
      text_area = (\<lambda>key. []),
      selectbox = (\<lambda>key. ''Schools'')\<rparr>"




section \<open>Facts about stripping\<close>

lemma py_rstrip_decomp:
  "\<exists>suf. s = py_rstrip s @ suf \<and> (\<forall>c\<in>set suf. isspace c)"
proof -
  have "s = rev (takeWhile isspace (rev s) @ dropWhile isspace (rev s))"
    by simp
  also have "\<dots> = rev (dropWhile isspace (rev s)) @ rev (takeWhile isspace (rev s))"
    by (simp only: rev_append)
  finally have "s = py_rstrip s @ rev (takeWhile isspace (rev s))"
    by (simp only: py_rstrip_def)
  moreover have "\<forall>c\<in>set (rev (takeWhile isspace (rev s))). isspace c"
    by (auto dest: set_takeWhileD)
  ultimately show ?thesis by blast
qed

lemma py_lstrip_decomp:
  "\<exists>pre. s = pre @ py_lstrip s \<and> (\<forall>c\<in>set pre. isspace c)"
proof -
  have "s = takeWhile isspace s @ py_lstrip s"
    by (simp add: py_lstrip_def)
  moreover have "\<forall>c\<in>set (takeWhile isspace s). isspace c"
    by (auto dest: set_takeWhileD)
  ultimately show ?thesis by blast
qed

lemma py_strip_decomp:
  "\<exists>pre suf. s = pre @ py_strip s @ suf
      \<and> (\<forall>c\<in>set pre. isspace c) \<and> (\<forall>c\<in>set suf. isspace c)"
proof -
  obtain pre where pre: "s = pre @ py_lstrip s" "\<forall>c\<in>set pre. isspace c"
    using py_lstrip_decomp by blast
  obtain suf where suf: "py_lstrip s = py_rstrip (py_lstrip s) @ suf" "\<forall>c\<in>set suf. isspace c"
    using py_rstrip_decomp by blast
  have "s = pre @ py_strip s @ suf"
    using pre(1) suf(1) by (simp add: py_strip_def)
  with pre(2) suf(2) show ?thesis by blast
qed

lemma set_py_strip: "set (py_strip s) \<subseteq> set s"
proof -
  obtain pre suf where "s = pre @ py_strip s @ suf"
    using py_strip_decomp by blast
  then have "set s = set pre \<union> set (py_strip s) \<union> set suf"
    by (metis set_append sup_assoc)
  then show ?thesis by blast
qed

lemma py_lstrip_hd: "py_lstrip s \<noteq> [] \<Longrightarrow> \<not> isspace (hd (py_lstrip s))"
  by (simp add: py_lstrip_def hd_dropWhile)

lemma py_rstrip_last: "py_rstrip s \<noteq> [] \<Longrightarrow> \<not> isspace (last (py_rstrip s))"
  by (simp add: py_rstrip_def last_rev hd_dropWhile)

lemma py_rstrip_hd:
  assumes "s \<noteq> []" "\<not> isspace (hd s)"
  shows "py_rstrip s \<noteq> [] \<and> hd (py_rstrip s) = hd s"
proof -
  obtain suf where suf: "s = py_rstrip s @ suf" "\<forall>c\<in>set suf. isspace c"
    using py_rstrip_decomp by blast
  have ne: "py_rstrip s \<noteq> []"
  proof
    assume "py_rstrip s = []"
    with suf(1) have "s = suf" by simp
    with assms suf(2) show False by (cases s) auto
  qed
  with suf(1) have "hd s = hd (py_rstrip s)"
    by (metis hd_append2)
  with ne show ?thesis by simp
qed

lemma py_strip_ends:
  "py_strip s \<noteq> [] \<Longrightarrow> \<not> isspace (hd (py_strip s)) \<and> \<not> isspace (last (py_strip s))"
proof -
  assume ne: "py_strip s \<noteq> []"
  then have l: "py_lstrip s \<noteq> []"
    by (auto simp: py_strip_def py_rstrip_def)
  then have "\<not> isspace (hd (py_lstrip s))" by (rule py_lstrip_hd)
  with l have "hd (py_strip s) = hd (py_lstrip s)"
    unfolding py_strip_def using py_rstrip_hd by blast
  moreover have "\<not> isspace (last (py_strip s))"
    using ne unfolding py_strip_def by (rule py_rstrip_last)
  ultimately show ?thesis
    using \<open>\<not> isspace (hd (py_lstrip s))\<close> by simp
qed

lemma py_strip_fixed:
  assumes "s = [] \<or> (\<not> isspace (hd s) \<and> \<not> isspace (last s))"
  shows "py_strip s = s"
proof (cases s)
  case Nil
  then show ?thesis by (simp add: py_strip_def py_lstrip_def py_rstrip_def)
next
  case (Cons c cs)
  with assms have h: "\<not> isspace (hd s)" and l: "\<not> isspace (last s)" by auto
  from Cons h have "py_lstrip s = s"
    by (simp add: py_lstrip_def)
  moreover have "py_rstrip s = s"
  proof -
    have "hd (rev s) = last s" by (simp add: hd_rev)
    with l have "dropWhile isspace (rev s) = rev s"
      by (simp add: dropWhile_eq_self_iff)
    then show ?thesis by (simp add: py_rstrip_def)
  qed
  ultimately show ?thesis by (simp add: py_strip_def)
qed

lemma py_strip_idem: "py_strip (py_strip s) = py_strip s"
  using py_strip_ends [of s] by (intro py_strip_fixed) blast

lemma py_strip_empty_iff: "py_strip s = [] \<longleftrightarrow> (\<forall>c\<in>set s. isspace c)"
proof
  assume e: "py_strip s = []"
  obtain pre suf where "s = pre @ py_strip s @ suf"
    "\<forall>c\<in>set pre. isspace c" "\<forall>c\<in>set suf. isspace c"
    using py_strip_decomp by blast
  with e show "\<forall>c\<in>set s. isspace c"
    by (metis Un_iff append_Nil set_append)
next
  assume a: "\<forall>c\<in>set s. isspace c"
  show "py_strip s = []"
  proof (rule ccontr)
    assume ne: "py_strip s \<noteq> []"
    then have "\<not> isspace (hd (py_strip s))" using py_strip_ends by blast
    moreover have "hd (py_strip s) \<in> set s"
      using ne set_py_strip hd_in_set by blast
    ultimately show False using a by blast
  qed
qed

lemma re_sub_invalid_clean: "set (re_sub_invalid s) \<inter> set invalid_chars = {}"
  by (auto simp: re_sub_invalid_def invalid_chars_def)

lemma re_sub_invalid_fixed:
  "set s \<inter> set invalid_chars = {} \<Longrightarrow> re_sub_invalid s = s"
  unfolding re_sub_invalid_def by (induction s) auto

lemma sanitize_filename_clean: "set (sanitize_filename s) \<inter> set invalid_chars = {}"
  using set_py_strip [of "re_sub_invalid s"] re_sub_invalid_clean [of s]
  unfolding sanitize_filename_def by blast

lemma sanitize_filename_idem: "sanitize_filename (sanitize_filename s) = sanitize_filename s"
proof -
  have "re_sub_invalid (sanitize_filename s) = sanitize_filename s"
    by (rule re_sub_invalid_fixed) (rule sanitize_filename_clean)
  then have "sanitize_filename (sanitize_filename s) = py_strip (sanitize_filename s)"
    by (simp add: sanitize_filename_def)
  then show ?thesis
    by (simp add: sanitize_filename_def py_strip_idem)
qed

section \<open>Facts about dictionaries\<close>

lemma map_of_dict_set: "map_of (dict_set d k v) = (map_of d)(k \<mapsto> v)"
  by (induction d) (auto simp: fun_eq_iff)

lemma keys_dict_set:
  "map fst (dict_set d k v) = (if k \<in> set (map fst d) then map fst d else map fst d @ [k])"
  by (induction d) force+

lemma dict_set_fresh: "k \<notin> fst ` set d \<Longrightarrow> dict_set d k v = d @ [(k, v)]"
  by (induction d) auto

lemma foldl_dict_set_fresh:
  "distinct (map fst xs) \<Longrightarrow> fst ` set xs \<inter> fst ` set acc = {} \<Longrightarrow>
   foldl (\<lambda>d (k, v). dict_set d k v) acc xs = acc @ xs"
proof (induction xs arbitrary: acc)
  case Nil
  then show ?case by simp
next
  case (Cons x xs)
  obtain k v where x: "x = (k, v)" by (cases x)
  from Cons.prems x have fresh: "k \<notin> fst ` set acc" by auto
  have "foldl (\<lambda>d (k, v). dict_set d k v) (acc @ [(k, v)]) xs = (acc @ [(k, v)]) @ xs"
    using Cons.prems x by (intro Cons.IH) auto
  with fresh x show ?case by (simp add: dict_set_fresh)
qed

lemma dict_of_items_distinct: "distinct (map fst xs) \<Longrightarrow> dict_of_items xs = xs"
  unfolding dict_of_items_def using foldl_dict_set_fresh [of xs "[]"] by simp

lemma map_of_foldl_dict_set:
  "map_of (foldl (\<lambda>d (k, v). dict_set d k v) acc xs) = map_of acc ++ map_of (rev xs)"
proof (induction xs arbitrary: acc)
  case Nil
  then show ?case by simp
next
  case (Cons x xs)
  obtain k v where x: "x = (k, v)" by (cases x)
  show ?case
    by (simp add: Cons.IH x map_of_dict_set fun_eq_iff map_add_def split: option.splits)
qed

lemma map_of_dict_of_items: "map_of (dict_of_items xs) = map_of (rev xs)"
  by (simp add: dict_of_items_def map_of_foldl_dict_set)

lemma distinct_foldl_dict_set:
  "distinct (map fst acc) \<Longrightarrow> distinct (map fst (foldl (\<lambda>d (k, v). dict_set d k v) acc xs))"
proof (induction xs arbitrary: acc)
  case Nil
  then show ?case by simp
next
  case (Cons x xs)
  obtain k v where x: "x = (k, v)" by (cases x)
  have "distinct (map fst (dict_set acc k v))"
    using Cons.prems by (simp add: keys_dict_set)
  then show ?case using x by (simp add: Cons.IH)
qed

lemma distinct_dict_of_items: "distinct (map fst (dict_of_items xs))"
  by (simp add: dict_of_items_def distinct_foldl_dict_set)

lemma keys_dict_of_items: "fst ` set (dict_of_items xs) = fst ` set xs"
proof -
  have "dom (map_of (dict_of_items xs)) = dom (map_of (rev xs))"
    by (simp add: map_of_dict_of_items)
  then show ?thesis by (simp add: dom_map_of_conv_image_fst)
qed

section \<open>Facts about the Flattener\<close>

lemma sentinel_na_if_blank: "na_if_blank v = sentinel v"
  by (cases v) (simp_all add: sentinel_def py_strip_empty_iff list_all_iff)

lemma flatten_spec_Nil: "flatten_spec [] p sep = []"
  by (simp add: flatten_spec_def)

lemma flatten_spec_dict:
  "flatten_spec ((k, PDict d) # rest) p sep =
     flatten_spec d (new_key p sep k) sep @ flatten_spec rest p sep"
  by (auto simp: flatten_spec_def new_key_def)

lemma flatten_spec_leaf:
  "(\<And>d. v \<noteq> PDict d) \<Longrightarrow>
   flatten_spec ((k, v) # rest) p sep = (new_key p sep k, sentinel v) # flatten_spec rest p sep"
  by (cases v) (auto simp: flatten_spec_def new_key_def)

lemma flatten_distinct:
  "distinct (map fst (flatten_spec d p sep)) \<Longrightarrow> flatten_nested_dict d p sep = flatten_spec d p sep"
  "distinct (map fst (flatten_spec d p sep)) \<Longrightarrow> flatten_items d p sep = flatten_spec d p sep"
proof (induction d p sep and d p sep rule: flatten_nested_dict_flatten_items.induct)
  case (1 nested_dict parent_key sep)
  then show ?case by (simp add: dict_of_items_distinct)
next
  case (2 parent_key sep)
  then show ?case by (simp add: flatten_spec_Nil)
next
  case (3 k d rest parent_key sep)
  then show ?case by (simp add: flatten_spec_dict)
qed (simp_all add: flatten_spec_leaf sentinel_na_if_blank del: na_if_blank.simps)


lemma map_of_rev_distinct: "distinct (map fst xs) \<Longrightarrow> map_of (rev xs) = map_of xs"
proof (rule ext)
  fix k
  assume d: "distinct (map fst xs)"
  then have dr: "distinct (map fst (rev xs))"
    by (simp add: rev_map [symmetric])
  show "map_of (rev xs) k = map_of xs k"
  proof (cases "map_of xs k")
    case None
    then have "k \<notin> fst ` set (rev xs)" by (simp add: map_of_eq_None_iff)
    then have "map_of (rev xs) k = None" by (simp add: map_of_eq_None_iff)
    with None show ?thesis by simp
  next
    case (Some v)
    then have "(k, v) \<in> set (rev xs)" by (auto dest: map_of_SomeD)
    with dr have "map_of (rev xs) k = Some v" by (simp add: map_of_eq_Some_iff)
    with Some show ?thesis by simp
  qed
qed

lemma startswith_refl: "startswith k k"
  by (induction k) auto

lemma startswith_append_left: "startswith k (p @ q) \<Longrightarrow> startswith k p"
  by (induction k p rule: startswith.induct) auto

lemma startswith_new_key: "startswith key (new_key q sep b) \<Longrightarrow> startswith key q"
  by (cases "q = []") (auto simp: new_key_def dest: startswith_append_left)

lemma flatten_items_Cons:
  "flatten_items (e # rest) p sep = flatten_items [e] p sep @ flatten_items rest p sep"
proof (cases e)
  case (Pair k v)
  then show ?thesis by (cases v) simp_all
qed

lemma flatten_keys:
  "key \<in> fst ` set (flatten_nested_dict d p sep) \<Longrightarrow>
     \<exists>(k, v) \<in> set d. startswith key (new_key p sep k)"
  "key \<in> fst ` set (flatten_items d p sep) \<Longrightarrow>
     \<exists>(k, v) \<in> set d. startswith key (new_key p sep k)"
proof (induction d p sep and d p sep rule: flatten_nested_dict_flatten_items.induct)
  case (1 nested_dict parent_key sep)
  then show ?case by (simp add: keys_dict_of_items)
next
  case (2 parent_key sep)
  then show ?case by simp
next
  case (3 k d rest parent_key sep)
  from "3.prems" consider
      (inner) "key \<in> fst ` set (flatten_nested_dict d (new_key parent_key sep k) sep)"
    | (later) "key \<in> fst ` set (flatten_items rest parent_key sep)"
    by (auto simp: image_Un)
  then show ?case
  proof cases
    case inner
    then have "\<exists>(k', v') \<in> set d. startswith key (new_key (new_key parent_key sep k) sep k')"
      by (rule "3.IH"(1))
    then have "startswith key (new_key parent_key sep k)"
      by (auto dest: startswith_new_key)
    then show ?thesis by auto
  next
    case later
    then have "\<exists>(k', v') \<in> set rest. startswith key (new_key parent_key sep k')"
      by (rule "3.IH"(2))
    then show ?thesis by auto
  qed
qed (auto simp: startswith_refl simp del: na_if_blank.simps)

lemma flatten_items_lookup:
  assumes "(k, v) \<in> set d"
    and "\<forall>(k', v') \<in> set d. (k', v') \<noteq> (k, v) \<longrightarrow> \<not> startswith key (new_key p sep k')"
  shows "map_of (rev (flatten_items d p sep)) key = map_of (rev (flatten_items [(k, v)] p sep)) key"
  using assms
proof (induction d)
  case Nil
  then show ?case by simp
next
  case (Cons e rest)
  let ?A = "flatten_items [e] p sep" and ?B = "flatten_items rest p sep"
  let ?M = "map_of (rev (flatten_items [(k, v)] p sep)) key"
  have split: "map_of (rev (flatten_items (e # rest) p sep)) key =
      (case map_of (rev ?B) key of None \<Rightarrow> map_of (rev ?A) key | Some x \<Rightarrow> Some x)"
    by (subst flatten_items_Cons) (simp add: map_add_def)
  have others: "\<forall>(k', v') \<in> set rest. (k', v') \<noteq> (k, v) \<longrightarrow> \<not> startswith key (new_key p sep k')"
    using Cons.prems(2) by auto
  show ?case
  proof (cases "(k, v) \<in> set rest")
    case True
    then have B: "map_of (rev ?B) key = ?M"
      using others by (rule Cons.IH)
    show ?thesis
    proof (cases "e = (k, v)")
      case True
      with B split show ?thesis by (simp split: option.splits)
    next
      case False
      have "key \<notin> fst ` set ?A"
      proof
        assume "key \<in> fst ` set ?A"
        then have "\<exists>(k', v') \<in> set [e]. startswith key (new_key p sep k')"
          by (rule flatten_keys(2))
        with False Cons.prems(2) show False by auto
      qed
      then have "map_of (rev ?A) key = None"
        by (simp add: map_of_eq_None_iff)
      with B split show ?thesis by (simp split: option.splits)
    qed
  next
    case False
    with Cons.prems(1) have e: "e = (k, v)" by simp
    have "key \<notin> fst ` set ?B"
    proof
      assume "key \<in> fst ` set ?B"
      then have "\<exists>(k', v') \<in> set rest. startswith key (new_key p sep k')"
        by (rule flatten_keys(2))
      with False others show False by auto
    qed
    then have "map_of (rev ?B) key = None"
      by (simp add: map_of_eq_None_iff)
    with e split show ?thesis by simp
  qed
qed

lemma flatten_lookup_leaf:
  assumes "(k, v) \<in> set d" and "\<And>d'. v \<noteq> PDict d'"
    and "\<forall>(k', v') \<in> set d. (k', v') \<noteq> (k, v) \<longrightarrow>
           \<not> startswith (new_key p sep k) (new_key p sep k')"
  shows "map_of (flatten_nested_dict d p sep) (new_key p sep k) = Some (na_if_blank v)"
proof -
  have "map_of (flatten_nested_dict d p sep) (new_key p sep k)
      = map_of (rev (flatten_items [(k, v)] p sep)) (new_key p sep k)"
    using flatten_items_lookup [OF assms(1) assms(3)] by (simp add: map_of_dict_of_items)
  also have "\<dots> = Some (na_if_blank v)"
    using assms(2) by (cases v) auto
  finally show ?thesis .
qed

lemma flatten_lookup_dict:
  assumes "(k, PDict d') \<in> set d"
    and "\<forall>(k', v') \<in> set d. (k', v') \<noteq> (k, PDict d') \<longrightarrow> \<not> startswith key (new_key p sep k')"
  shows "map_of (flatten_nested_dict d p sep) key
       = map_of (flatten_nested_dict d' (new_key p sep k) sep) key"
proof -
  have "map_of (flatten_nested_dict d p sep) key
      = map_of (rev (flatten_items [(k, PDict d')] p sep)) key"
    using flatten_items_lookup [OF assms] by (simp add: map_of_dict_of_items)
  also have "\<dots> = map_of (rev (flatten_nested_dict d' (new_key p sep k) sep)) key"
    by simp
  also have "\<dots> = map_of (flatten_nested_dict d' (new_key p sep k) sep) key"
    using map_of_rev_distinct [of "flatten_nested_dict d' (new_key p sep k) sep"]
    by (simp add: distinct_dict_of_items)
  finally show ?thesis .
qed

section \<open>Facts about the Column Orderer and the clock\<close>

lemma add_sections_eq:
  "add_sections columns secs acc =
     acc @ concat (map (\<lambda>section. sort (filter (py_in section) columns)) secs)"
  by (induction secs arbitrary: acc) simp_all

lemma set_add_sections:
  "set (add_sections columns secs acc)
     = set acc \<union> {c \<in> set columns. \<exists>s \<in> set secs. py_in s c}"
  by (auto simp: add_sections_eq)

lemma order_columns_eq:
  "order_columns columns =
     ''timestamp'' # concat (map (\<lambda>section. sort (filter (py_in section) columns)) sections)
       @ filter (\<lambda>c. c \<noteq> ''timestamp'' \<and> \<not> (\<exists>s \<in> set sections. py_in s c)) columns"
proof -
  have "filter (\<lambda>col. col \<notin> set (add_sections columns sections [''timestamp''])) columns
      = filter (\<lambda>c. c \<noteq> ''timestamp'' \<and> \<not> (\<exists>s \<in> set sections. py_in s c)) columns"
    by (rule filter_cong) (auto simp: set_add_sections)
  then show ?thesis
    by (simp add: order_columns_def Let_def add_sections_eq)
qed

lemma set_order_columns: "set (order_columns columns) = insert ''timestamp'' (set columns)"
  by (auto simp: order_columns_def Let_def set_add_sections)

section \<open>Facts about the Record Store and the submit action\<close>

lemma survey_data_after_save:
  "makedirs_error e = None \<Longrightarrow>
   survey_data_after (save_survey_data e d)
     = dict_set d ''timestamp'' (PStr (strftime (now_stamp e) ''%Y-%m-%d %H:%M:%S''))"
  by (simp add: save_survey_data_def try_save_def Let_def
      split: option.splits pyval.splits sum.splits)

lemma dict_set_mem: "(k, v) \<in> set (dict_set d k v)"
  by (induction d) auto

lemma flatten_items_leaf_key:
  "(k, v) \<in> set d \<Longrightarrow> (\<And>d'. v \<noteq> PDict d') \<Longrightarrow>
   new_key p sep k \<in> fst ` set (flatten_items d p sep)"
proof (induction d)
  case Nil
  then show ?case by simp
next
  case (Cons e rest)
  show ?case
  proof (cases "e = (k, v)")
    case True
    have "new_key p sep k \<in> fst ` set (flatten_items [(k, v)] p sep)"
      using Cons.prems(2) by (cases v) auto
    with True show ?thesis
      by (subst flatten_items_Cons) (simp add: image_Un)
  next
    case False
    with Cons have "new_key p sep k \<in> fst ` set (flatten_items rest p sep)" by simp
    then show ?thesis
      by (subst flatten_items_Cons) (simp add: image_Un)
  qed
qed

lemma timestamp_key_flattened:
  "''timestamp'' \<in> fst ` set (flatten_nested_dict (dict_set d ''timestamp'' (PStr s)) [] sep)"
proof -
  have "new_key [] sep ''timestamp''
      \<in> fst ` set (flatten_items (dict_set d ''timestamp'' (PStr s)) [] sep)"
    by (rule flatten_items_leaf_key [where v = "PStr s"]) (simp_all add: dict_set_mem)
  then show ?thesis by (simp add: keys_dict_of_items new_key_def)
qed

lemma those_map_Some:
  "(\<forall>x\<in>set xs. f x \<noteq> None) \<Longrightarrow> those (map f xs) = Some (map (\<lambda>x. the (f x)) xs)"
  by (induction xs) auto

lemma build_table_ok:
  assumes "''timestamp'' \<in> fst ` set (flatten_nested_dict d [] ''_'')"
  shows "build_table d =
     Inr \<lparr>header = order_columns (map fst (flatten_nested_dict d [] ''_'')),
          row = map (\<lambda>c. the (map_of (flatten_nested_dict d [] ''_'') c))
                  (order_columns (map fst (flatten_nested_dict d [] ''_'')))\<rparr>"
proof -
  let ?flat = "flatten_nested_dict d [] ''_''"
  have "\<forall>c \<in> set (order_columns (map fst ?flat)). map_of ?flat c \<noteq> None"
    using assms by (auto simp: set_order_columns map_of_eq_None_iff)
  then have "those (map (map_of ?flat) (order_columns (map fst ?flat)))
      = Some (map (\<lambda>c. the (map_of ?flat c)) (order_columns (map fst ?flat)))"
    by (rule those_map_Some)
  then show ?thesis
    by (simp add: build_table_def Let_def)
qed

lemma final_of_session:
  "final_survey_data (session (PDict p) t i) =
     Inr [(''ashram_name'', case map_of p ''ashram_name'' of None \<Rightarrow> PStr ''N/A'' | Some v \<Rightarrow> v),
          (''Property Ownership and Legal Documents'', PDict p),
          (''Trust/Society Details & Documents'', t),
          (''Institutions Details & Documents'', i)]"
  by (simp add: final_survey_data_def session_def py_getitem_def py_get_def)

lemma stamped_final:
  "dict_set [(''ashram_name'', n),
             (''Property Ownership and Legal Documents'', p),
             (''Trust/Society Details & Documents'', t),
             (''Institutions Details & Documents'', i)] ''timestamp'' v
   = [(''ashram_name'', n),
      (''Property Ownership and Legal Documents'', p),
      (''Trust/Society Details & Documents'', t),
      (''Institutions Details & Documents'', i),
      (''timestamp'', v)]"
  by simp

lemma flat_final_ashram_name:
  assumes "\<And>d'. n \<noteq> PDict d'"
  shows "map_of (flatten_nested_dict
            [(''ashram_name'', n),
             (''Property Ownership and Legal Documents'', p),
             (''Trust/Society Details & Documents'', t),
             (''Institutions Details & Documents'', i),
             (''timestamp'', v)] [] ''_'') ''ashram_name'' = Some (na_if_blank n)"
  using flatten_lookup_leaf [where k = "''ashram_name''" and v = n and p = "[]" and sep = "''_''"
      and d = "[(''ashram_name'', n),
             (''Property Ownership and Legal Documents'', p),
             (''Trust/Society Details & Documents'', t),
             (''Institutions Details & Documents'', i),
             (''timestamp'', v)]"] assms
  by (simp add: new_key_def)



lemma flat_final_property:
  "map_of (flatten_nested_dict
            [(''ashram_name'', n),
             (''Property Ownership and Legal Documents'', PDict p),
             (''Trust/Society Details & Documents'', t),
             (''Institutions Details & Documents'', i),
             (''timestamp'', v)] [] ''_'')
      ''Property Ownership and Legal Documents_ashram_name''
   = map_of (flatten_nested_dict p ''Property Ownership and Legal Documents'' ''_'')
      ''Property Ownership and Legal Documents_ashram_name''"
  using flatten_lookup_dict [where k = "''Property Ownership and Legal Documents''" and d' = p
      and p = "[]" and sep = "''_''"
      and key = "''Property Ownership and Legal Documents_ashram_name''"
      and d = "[(''ashram_name'', n),
             (''Property Ownership and Legal Documents'', PDict p),
             (''Trust/Society Details & Documents'', t),
             (''Institutions Details & Documents'', i),
             (''timestamp'', v)]"]
  by (simp add: new_key_def)

lemma flat_property_ashram_name:
  "map_of (flatten_nested_dict (property_survey w) ''Property Ownership and Legal Documents'' ''_'')
      ''Property Ownership and Legal Documents_ashram_name''
   = Some (na_if_blank (PStr (text_input w ''ashram_name'')))"
  using flatten_lookup_leaf [where k = "''ashram_name''" and v = "PStr (text_input w ''ashram_name'')"
      and p = "''Property Ownership and Legal Documents''" and sep = "''_''"
      and d = "property_survey w"]
  by (simp add: new_key_def property_survey_def del: na_if_blank.simps)

lemma os_path_join_results:
  "os_path_join SURVEY_RESULTS_DIR (sanitize_filename name @ CHR ''_'' # rest)
     = ''survey_results/'' @ sanitize_filename name @ CHR ''_'' # rest"
proof -
  have "\<not> startswith (sanitize_filename name @ CHR ''_'' # rest) ''/''"
  proof (cases "sanitize_filename name")
    case Nil
    then show ?thesis by simp
  next
    case (Cons c cs)
    then have "c \<in> set (sanitize_filename name)" by simp
    moreover have "CHR ''/'' \<in> set invalid_chars" by (simp add: invalid_chars_def)
    ultimately have "c \<noteq> CHR ''/''"
      using sanitize_filename_clean [of name] by blast
    with Cons show ?thesis by simp
  qed
  then show ?thesis
    by (simp add: os_path_join_def SURVEY_RESULTS_DIR_def)
qed

lemma try_save_run:
  assumes "''timestamp'' \<in> fst ` set (flatten_nested_dict d [] ''_'')"
  shows "try_save e d filename path =
     \<lparr>survey_data_after = d,
      file_path = Some path,
      written =
        (if to_excel_error e = None
         then Some \<lparr>header = order_columns (map fst (flatten_nested_dict d [] ''_'')),
                    row = map (\<lambda>c. the (map_of (flatten_nested_dict d [] ''_'') c))
                            (order_columns (map fst (flatten_nested_dict d [] ''_'')))\<rparr>
         else None),
      shown =
        [case to_excel_error e of
           Some x \<Rightarrow> Error_saving x
         | None \<Rightarrow> (case read_error e of Some x \<Rightarrow> Error_saving x | None \<Rightarrow> Saved filename)],
      returned = Inr (to_excel_error e = None \<and> read_error e = None)\<rparr>"
  by (simp add: try_save_def build_table_ok [OF assms] split: option.splits)

lemma save_survey_data_run:
  assumes "makedirs_error e = None"
    and "(case map_of d ''ashram_name'' of None \<Rightarrow> PStr ''Unknown_Ashram'' | Some v \<Rightarrow> v)
           = PStr name"
  shows "save_survey_data e d =
     try_save e (dict_set d ''timestamp'' (PStr (strftime (now_stamp e) ''%Y-%m-%d %H:%M:%S'')))
       (sanitize_filename name @ ''_'' @ strftime (now_file e) ''%Y%m%d_%H%M%S'' @ ''.xlsx'')
       (''survey_results/'' @ sanitize_filename name @ ''_''
          @ strftime (now_file e) ''%Y%m%d_%H%M%S'' @ ''.xlsx'')"
proof -
  have "map_of (dict_set d ''timestamp'' (PStr (strftime (now_stamp e) ''%Y-%m-%d %H:%M:%S'')))
          ''ashram_name'' = map_of d ''ashram_name''"
    by (simp add: map_of_dict_set)
  with assms show ?thesis
    unfolding save_survey_data_def Let_def
    by (simp add: os_path_join_results del: strftime.simps)
qed

lemma count_list_distinct: "distinct xs \<Longrightarrow> count_list xs c = (if c \<in> set xs then 1 else 0)"
  by (induction xs) auto

lemma count_list_sort_filter:
  "distinct xs \<Longrightarrow>
   count_list (sort (filter P xs)) (c :: string) = (if c \<in> set xs \<and> P c then 1 else 0)"
  using count_list_distinct [of "sort (filter P xs)" c] by simp

lemma count_list_order_columns:
  assumes "distinct columns" and "c \<in> set columns" and "c \<noteq> ''timestamp''"
  shows "count_list (order_columns columns) c =
     (if \<exists>s \<in> set sections. py_in s c then length (filter (\<lambda>s. py_in s c) sections) else 1)"
proof -
  have sec: "count_list (concat (map (\<lambda>section. sort (filter (py_in section) columns)) secs)) c
      = length (filter (\<lambda>s. py_in s c) secs)" for secs
    using assms(1,2) by (induction secs) (simp_all add: count_list_sort_filter del: py_in.simps)
  have rest: "count_list
       (filter (\<lambda>c. c \<noteq> ''timestamp'' \<and> \<not> (\<exists>s \<in> set sections. py_in s c)) columns) c
      = (if \<exists>s \<in> set sections. py_in s c then 0 else 1)"
    using assms count_list_distinct
      [of "filter (\<lambda>c. c \<noteq> ''timestamp'' \<and> \<not> (\<exists>s \<in> set sections. py_in s c)) columns" c]
    by auto
  show ?thesis
    using assms(3) unfolding order_columns_eq
    by (simp only: count_list_append count_list.simps sec rest append_Cons append_Nil)
       (auto simp: filter_empty_conv)
qed

lemma property_survey_ashram_name:
  "map_of (property_survey w) ''ashram_name'' = Some (PStr (text_input w ''ashram_name''))"
  by (simp add: property_survey_def)

lemma session_visit_property:
  "visit initial_session ''Property Ownership and Legal Documents'' answers
     = session (PDict answers) PNone PNone"
  by (simp add: visit_def initial_session_def session_def)

lemma env_ok_simps:
  "makedirs_error env_ok = None" "to_excel_error env_ok = None" "read_error env_ok = None"
  "now_stamp env_ok = clock0" "now_file env_ok = clock0"
  by (simp_all add: env_ok_def)

lemma clock0_stamp: "strftime clock0 ''%Y-%m-%d %H:%M:%S'' = ''2024-01-02 03:04:05''"
  by code_simp

lemma clock0_file: "strftime clock0 ''%Y%m%d_%H%M%S'' = ''20240102_030405''"
  by code_simp



lemma submit_run:
  assumes "makedirs_error e = None"
    and "(case map_of p ''ashram_name'' of None \<Rightarrow> PStr ''N/A'' | Some v \<Rightarrow> v) = PStr name"
  shows "submit e (session (PDict p) t i) =
     Inr (try_save e
       [(''ashram_name'', PStr name),
        (''Property Ownership and Legal Documents'', PDict p),
        (''Trust/Society Details & Documents'', t),
        (''Institutions Details & Documents'', i),
        (''timestamp'', PStr (strftime (now_stamp e) ''%Y-%m-%d %H:%M:%S''))]
       (sanitize_filename name @ ''_'' @ strftime (now_file e) ''%Y%m%d_%H%M%S'' @ ''.xlsx'')
       (''survey_results/'' @ sanitize_filename name @ ''_''
          @ strftime (now_file e) ''%Y%m%d_%H%M%S'' @ ''.xlsx''))"
proof -
  let ?final = "[(''ashram_name'', PStr name),
        (''Property Ownership and Legal Documents'', PDict p),
        (''Trust/Society Details & Documents'', t),
        (''Institutions Details & Documents'', i)]"
  have "final_survey_data (session (PDict p) t i) = Inr ?final"
    using assms(2) by (simp add: final_of_session)
  moreover have "save_survey_data e ?final =
     try_save e (dict_set ?final ''timestamp'' (PStr (strftime (now_stamp e) ''%Y-%m-%d %H:%M:%S'')))
       (sanitize_filename name @ ''_'' @ strftime (now_file e) ''%Y%m%d_%H%M%S'' @ ''.xlsx'')
       (''survey_results/'' @ sanitize_filename name @ ''_''
          @ strftime (now_file e) ''%Y%m%d_%H%M%S'' @ ''.xlsx'')"
    by (rule save_survey_data_run [OF assms(1)]) simp
  ultimately show ?thesis
    by (simp add: submit_def stamped_final del: strftime.simps dict_set.simps)
qed

lemma timestamp_key_final:
  "''timestamp'' \<in> fst ` set (flatten_nested_dict
       [(''ashram_name'', n),
        (''Property Ownership and Legal Documents'', p),
        (''Trust/Society Details & Documents'', t),
        (''Institutions Details & Documents'', i),
        (''timestamp'', PStr s)] [] ''_'')"
  using timestamp_key_flattened
    [of "[(''ashram_name'', n),
        (''Property Ownership and Legal Documents'', p),
        (''Trust/Society Details & Documents'', t),
        (''Institutions Details & Documents'', i)]" s "''_''"]
  by (simp only: stamped_final)

lemma property_column_counted_twice:
  assumes "makedirs_error e = None" and "to_excel_error e = None"
  shows "\<exists>out sh. submit e (session (PDict (property_survey w)) t i) = Inr out
     \<and> written out = Some sh
     \<and> count_list (header sh) ''Property Ownership and Legal Documents_ashram_name'' = 2"
proof -
  let ?name = "text_input w ''ashram_name''"
  let ?d = "[(''ashram_name'', PStr ?name),
        (''Property Ownership and Legal Documents'', PDict (property_survey w)),
        (''Trust/Society Details & Documents'', t),
        (''Institutions Details & Documents'', i),
        (''timestamp'', PStr (strftime (now_stamp e) ''%Y-%m-%d %H:%M:%S''))]"
  let ?flat = "flatten_nested_dict ?d [] ''_''"
  let ?key = "''Property Ownership and Legal Documents_ashram_name''"
  let ?sh = "\<lparr>header = order_columns (map fst ?flat),
             row = map (\<lambda>c. the (map_of ?flat c)) (order_columns (map fst ?flat))\<rparr>"
  let ?out = "try_save e ?d
       (sanitize_filename ?name @ ''_'' @ strftime (now_file e) ''%Y%m%d_%H%M%S'' @ ''.xlsx'')
       (''survey_results/'' @ sanitize_filename ?name @ ''_''
          @ strftime (now_file e) ''%Y%m%d_%H%M%S'' @ ''.xlsx'')"
  have s: "submit e (session (PDict (property_survey w)) t i) = Inr ?out"
    by (rule submit_run [OF assms(1)]) (simp add: property_survey_ashram_name)
  have w: "written ?out = Some ?sh"
    using assms(2) by (simp only: try_save_run [OF timestamp_key_final]) simp
  have "map_of ?flat ?key = Some (na_if_blank (PStr ?name))"
    by (simp only: flat_final_property flat_property_ashram_name)
  then have "?key \<in> fst ` set ?flat"
    by (metis map_of_eq_None_iff option.distinct(1))
  then have mem: "?key \<in> set (map fst ?flat)" by simp
  have dist: "distinct (map fst ?flat)"
    by (simp only: flatten_nested_dict.simps distinct_dict_of_items)
  have ne: "?key \<noteq> ''timestamp''" by simp
  have two: "length (filter (\<lambda>s. py_in s ?key) sections) = 2"
    by code_simp
  have ex: "\<exists>s \<in> set sections. py_in s ?key"
    by code_simp
  have "count_list (order_columns (map fst ?flat)) ?key = 2"
    using count_list_order_columns [OF dist mem ne] two ex by (simp only: if_True)
  then have "count_list (header ?sh) ?key = 2" by simp
  with s w show ?thesis by blast
qed

lemma file_path_save:
  assumes "makedirs_error e = None"
    and "(case map_of d ''ashram_name'' of None \<Rightarrow> PStr ''Unknown_Ashram'' | Some v \<Rightarrow> v)
           = PStr name"
  shows "file_path (save_survey_data e d)
     = Some (''survey_results/'' @ sanitize_filename name @ ''_''
          @ strftime (now_file e) ''%Y%m%d_%H%M%S'' @ ''.xlsx'')"
  by (simp only: save_survey_data_run [OF assms] try_save_run [OF timestamp_key_flattened])
     simp

lemma stamp_not_blank: "na_if_blank (PStr (strftime t ''%Y-%m-%d %H:%M:%S'')) = PStr (strftime t ''%Y-%m-%d %H:%M:%S'')"
proof -
  have "CHR ''-'' \<in> set (strftime t ''%Y-%m-%d %H:%M:%S'')"
    by (simp add: directive_def)
  moreover have "\<not> isspace CHR ''-''"
    by (simp add: isspace_def)
  ultimately have "py_strip (strftime t ''%Y-%m-%d %H:%M:%S'') \<noteq> []"
    unfolding py_strip_empty_iff by blast
  then show ?thesis
    by (simp del: strftime.simps)
qed

lemma sanitize_st_mary: "sanitize_filename ''St. Mary'' = ''St. Mary''"
  by code_simp

lemma st_mary_not_blank: "na_if_blank (PStr ''St. Mary'') = PStr ''St. Mary''"
  by code_simp

lemma order_two_columns: "order_columns [''ashram_name'', ''timestamp''] = [''timestamp'', ''ashram_name'']"
  by code_simp

section \<open>Facts about the runs of \<open>main\<close>\<close>











lemma sanitize_blank: "sanitize_filename [] = []"
  by code_simp

section \<open>The Sanitizer's contract\<close>

text \<open>
  Claim C6.  For every input string, the output of \<open>sanitize_filename\<close> contains none of
  the characters \<open>< > : " / \ | ? *\<close>: the output is the input with each of them replaced
  by an underscore, less a whitespace prefix and a whitespace suffix, and it neither
  starts nor ends with whitespace.  The function is idempotent.
\<close>

theorem sanitize_filename_contract:
  "set (sanitize_filename x) \<inter> set invalid_chars = {}
   \<and> (\<exists>pre suf.
         map (\<lambda>c. if c \<in> set invalid_chars then CHR ''_'' else c) x
           = pre @ sanitize_filename x @ suf
         \<and> (\<forall>c\<in>set pre. isspace c) \<and> (\<forall>c\<in>set suf. isspace c))
   \<and> (sanitize_filename x \<noteq> [] \<longrightarrow>
         \<not> isspace (hd (sanitize_filename x)) \<and> \<not> isspace (last (sanitize_filename x)))
   \<and> sanitize_filename (sanitize_filename x) = sanitize_filename x"
proof (intro conjI)
  show "set (sanitize_filename x) \<inter> set invalid_chars = {}"
    by (rule sanitize_filename_clean)
  show "\<exists>pre suf.
         map (\<lambda>c. if c \<in> set invalid_chars then CHR ''_'' else c) x
           = pre @ sanitize_filename x @ suf
         \<and> (\<forall>c\<in>set pre. isspace c) \<and> (\<forall>c\<in>set suf. isspace c)"
    using py_strip_decomp [of "re_sub_invalid x"]
    by (simp add: sanitize_filename_def re_sub_invalid_def)
  show "sanitize_filename x \<noteq> [] \<longrightarrow>
         \<not> isspace (hd (sanitize_filename x)) \<and> \<not> isspace (last (sanitize_filename x))"
    using py_strip_ends [of "re_sub_invalid x"] by (simp add: sanitize_filename_def)
  show "sanitize_filename (sanitize_filename x) = sanitize_filename x"
    by (rule sanitize_filename_idem)
qed

theorem sanitize_filename_contract_witness:
  "sanitize_filename '' a<b/c? '' = ''a_b_c_''
   \<and> set ''a_b_c_'' \<inter> set invalid_chars = {}
   \<and> \<not> isspace (hd ''a_b_c_'') \<and> \<not> isspace (last ''a_b_c_'')
   \<and> sanitize_filename ''a_b_c_'' = ''a_b_c_''"
proof -
  have e: "sanitize_filename '' a<b/c? '' = ''a_b_c_''"
    by code_simp
  have ne: "''a_b_c_'' \<noteq> []" by simp
  show ?thesis
    using sanitize_filename_contract [of "'' a<b/c? ''"] ne unfolding e by blast
qed

section \<open>The Flattener's contract\<close>

text \<open>
  Claim C2.  For every nested mapping whose scalar leaves have pairwise different compound
  keys, \<open>flatten_nested_dict\<close> returns exactly one entry per scalar leaf, in depth-first
  order: its key is the leaf's path of keys joined with the separator (after the prefix,
  when there is one) and its value is \<open>'N/A'\<close> when the leaf is \<open>None\<close> or a
  whitespace-only string, and the leaf itself otherwise.  The nested answer of scenario 2
  flattens as the specification says.
\<close>

theorem flatten_nested_dict_one_entry_per_leaf:
  "(distinct (map (\<lambda>(p, v). compound_key prefix sep p) (leaves d)) \<longrightarrow>
      flatten_nested_dict d prefix sep
        = map (\<lambda>(p, v). (compound_key prefix sep p, sentinel v)) (leaves d)
      \<and> length (flatten_nested_dict d prefix sep) = length (leaves d))
   \<and> flatten_nested_dict
         [(''land_title'',
           PDict [(''number_of_documents'', PStr []), (''additional_comments'', PNone)])]
         [] ''_''
       = [(''land_title_number_of_documents'', PStr ''N/A''),
          (''land_title_additional_comments'', PStr ''N/A'')]"
proof (intro conjI impI)
  assume d: "distinct (map (\<lambda>(p, v). compound_key prefix sep p) (leaves d))"
  have "map fst (flatten_spec d prefix sep) = map (\<lambda>(p, v). compound_key prefix sep p) (leaves d)"
    by (simp add: flatten_spec_def case_prod_unfold)
  with d have "distinct (map fst (flatten_spec d prefix sep))" by simp
  then have e: "flatten_nested_dict d prefix sep = flatten_spec d prefix sep"
    by (rule flatten_distinct(1))
  then show "flatten_nested_dict d prefix sep
        = map (\<lambda>(p, v). (compound_key prefix sep p, sentinel v)) (leaves d)"
    by (simp add: flatten_spec_def)
  from e show "length (flatten_nested_dict d prefix sep) = length (leaves d)"
    by (simp add: flatten_spec_def)
next
  show "flatten_nested_dict
         [(''land_title'',
           PDict [(''number_of_documents'', PStr []), (''additional_comments'', PNone)])]
         [] ''_''
       = [(''land_title_number_of_documents'', PStr ''N/A''),
          (''land_title_additional_comments'', PStr ''N/A'')]"
    by code_simp
qed

theorem flatten_nested_dict_one_entry_per_leaf_witness:
  "distinct (map (\<lambda>(p, v). compound_key [] ''_'' p)
       (leaves [(''a'', PDict [(''b'', PStr '' ''), (''c'', PInt 7)]), (''d'', PStr ''x'')]))
   \<and> flatten_nested_dict [(''a'', PDict [(''b'', PStr '' ''), (''c'', PInt 7)]), (''d'', PStr ''x'')]
         [] ''_''
       = [(''a_b'', PStr ''N/A''), (''a_c'', PInt 7), (''d'', PStr ''x'')]"
proof -
  have h: "distinct (map (\<lambda>(p, v). compound_key [] ''_'' p)
       (leaves [(''a'', PDict [(''b'', PStr '' ''), (''c'', PInt 7)]), (''d'', PStr ''x'')]))"
    by code_simp
  have r: "map (\<lambda>(p, v). (compound_key [] ''_'' p, sentinel v))
       (leaves [(''a'', PDict [(''b'', PStr '' ''), (''c'', PInt 7)]), (''d'', PStr ''x'')])
     = [(''a_b'', PStr ''N/A''), (''a_c'', PInt 7), (''d'', PStr ''x'')]"
    by code_simp
  show ?thesis
    using flatten_nested_dict_one_entry_per_leaf
      [of "[]" "''_''" "[(''a'', PDict [(''b'', PStr '' ''), (''c'', PInt 7)]), (''d'', PStr ''x'')]"]
      h r by simp
qed

section \<open>The Column Orderer's contract\<close>

text \<open>
  Claim C7.  The column order is a function of the flattened keys in their encounter
  order: the literal \<open>'timestamp'\<close> first; then, for each of the four section names in
  their fixed order, the keys that contain the name as a substring, sorted; then the keys
  that are neither \<open>'timestamp'\<close> nor matched by a section, in their encounter order.
  (The flattened record of \<open>save_survey_data\<close> always has the key \<open>'timestamp'\<close>.)
\<close>

theorem order_columns_sequence:
  "order_columns columns =
     [''timestamp'']
     @ sort (filter (py_in ''ashram_name'') columns)
     @ sort (filter (py_in ''Property Ownership and Legal Documents'') columns)
     @ sort (filter (py_in ''Trust/Society Details & Documents'') columns)
     @ sort (filter (py_in ''Institutions Details & Documents'') columns)
     @ filter (\<lambda>c. c \<noteq> ''timestamp''
                  \<and> \<not> py_in ''ashram_name'' c
                  \<and> \<not> py_in ''Property Ownership and Legal Documents'' c
                  \<and> \<not> py_in ''Trust/Society Details & Documents'' c
                  \<and> \<not> py_in ''Institutions Details & Documents'' c) columns"
proof -
  have loop: "add_sections columns sections [''timestamp''] =
      [''timestamp'']
      @ sort (filter (py_in ''ashram_name'') columns)
      @ sort (filter (py_in ''Property Ownership and Legal Documents'') columns)
      @ sort (filter (py_in ''Trust/Society Details & Documents'') columns)
      @ sort (filter (py_in ''Institutions Details & Documents'') columns)"
    by (simp add: sections_def del: py_in.simps)
  have placed: "c \<notin> set (add_sections columns sections [''timestamp'']) \<longleftrightarrow>
      c \<noteq> ''timestamp''
      \<and> \<not> py_in ''ashram_name'' c
      \<and> \<not> py_in ''Property Ownership and Legal Documents'' c
      \<and> \<not> py_in ''Trust/Society Details & Documents'' c
      \<and> \<not> py_in ''Institutions Details & Documents'' c"
    if "c \<in> set columns" for c
    using that by (simp add: set_add_sections sections_def del: py_in.simps)
  have remaining: "filter (\<lambda>col. col \<notin> set (add_sections columns sections [''timestamp''])) columns
      = filter (\<lambda>c. c \<noteq> ''timestamp''
                  \<and> \<not> py_in ''ashram_name'' c
                  \<and> \<not> py_in ''Property Ownership and Legal Documents'' c
                  \<and> \<not> py_in ''Trust/Society Details & Documents'' c
                  \<and> \<not> py_in ''Institutions Details & Documents'' c) columns"
    by (rule filter_cong) (simp_all only: placed)
  have "order_columns columns =
      add_sections columns sections [''timestamp'']
      @ filter (\<lambda>col. col \<notin> set (add_sections columns sections [''timestamp''])) columns"
    by (simp add: order_columns_def Let_def)
  also have "\<dots> =
      add_sections columns sections [''timestamp'']
      @ filter (\<lambda>c. c \<noteq> ''timestamp''
                  \<and> \<not> py_in ''ashram_name'' c
                  \<and> \<not> py_in ''Property Ownership and Legal Documents'' c
                  \<and> \<not> py_in ''Trust/Society Details & Documents'' c
                  \<and> \<not> py_in ''Institutions Details & Documents'' c) columns"
    by (simp only: remaining)
  finally show ?thesis
    by (simp only: loop append_assoc)
qed

theorem order_columns_sequence_witness:
  "order_columns [''zeta'', ''ashram_name'', ''Trust/Society Details & Documents_pan_card'',
       ''timestamp'', ''alpha'']
     = [''timestamp'', ''ashram_name'', ''Trust/Society Details & Documents_pan_card'',
        ''zeta'', ''alpha'']"
proof -
  have "[''timestamp'']
     @ sort (filter (py_in ''ashram_name'') [''zeta'', ''ashram_name'', ''Trust/Society Details & Documents_pan_card'',
       ''timestamp'', ''alpha''])
     @ sort (filter (py_in ''Property Ownership and Legal Documents'') [''zeta'', ''ashram_name'', ''Trust/Society Details & Documents_pan_card'',
       ''timestamp'', ''alpha''])
     @ sort (filter (py_in ''Trust/Society Details & Documents'') [''zeta'', ''ashram_name'', ''Trust/Society Details & Documents_pan_card'',
       ''timestamp'', ''alpha''])
     @ sort (filter (py_in ''Institutions Details & Documents'') [''zeta'', ''ashram_name'', ''Trust/Society Details & Documents_pan_card'',
       ''timestamp'', ''alpha''])
     @ filter (\<lambda>c. c \<noteq> ''timestamp''
                  \<and> \<not> py_in ''ashram_name'' c
                  \<and> \<not> py_in ''Property Ownership and Legal Documents'' c
                  \<and> \<not> py_in ''Trust/Society Details & Documents'' c
                  \<and> \<not> py_in ''Institutions Details & Documents'' c) [''zeta'', ''ashram_name'', ''Trust/Society Details & Documents_pan_card'',
       ''timestamp'', ''alpha'']
    = [''timestamp'', ''ashram_name'', ''Trust/Society Details & Documents_pan_card'',
        ''zeta'', ''alpha'']"
    by code_simp
  then show ?thesis
    by (simp only: order_columns_sequence)
qed

section \<open>The Record Store's contract\<close>

text \<open>
  Claim C9.  Once the results directory exists, \<open>save_survey_data\<close> has set the key
  \<open>'timestamp'\<close> of the caller's dictionary to the formatted current time, overwriting
  an earlier value in place and appending the key otherwise; every other top-level key
  keeps its value and its position.  This holds however the rest of the call ends.
\<close>

theorem save_survey_data_stamps_in_place:
  assumes "makedirs_error e = None"
  shows "map_of (survey_data_after (save_survey_data e record)) ''timestamp''
           = Some (PStr (strftime (now_stamp e) ''%Y-%m-%d %H:%M:%S''))
       \<and> (\<forall>k. k \<noteq> ''timestamp'' \<longrightarrow>
             map_of (survey_data_after (save_survey_data e record)) k = map_of record k)
       \<and> map fst (survey_data_after (save_survey_data e record))
           = (if ''timestamp'' \<in> set (map fst record) then map fst record
              else map fst record @ [''timestamp''])"
  using assms
  by (simp add: survey_data_after_save map_of_dict_set keys_dict_set)

theorem save_survey_data_stamps_in_place_witness:
  "makedirs_error env_ok = None
   \<and> map_of (survey_data_after (save_survey_data env_ok
         [(''timestamp'', PStr ''earlier''), (''ashram_name'', PStr ''St. Mary'')])) ''timestamp''
       = Some (PStr ''2024-01-02 03:04:05'')
   \<and> map_of (survey_data_after (save_survey_data env_ok
         [(''timestamp'', PStr ''earlier''), (''ashram_name'', PStr ''St. Mary'')])) ''ashram_name''
       = Some (PStr ''St. Mary'')
   \<and> map fst (survey_data_after (save_survey_data env_ok
         [(''timestamp'', PStr ''earlier''), (''ashram_name'', PStr ''St. Mary'')]))
       = [''timestamp'', ''ashram_name'']"
  using save_survey_data_stamps_in_place
    [of env_ok "[(''timestamp'', PStr ''earlier''), (''ashram_name'', PStr ''St. Mary'')]"]
  by (simp add: env_ok_simps clock0_stamp del: strftime.simps)

section \<open>The Survey Controller's records\<close>

text \<open>
  Claim C10.  Whenever the Property section has been filled in (its slot holds what
  \<open>property_survey\<close> returns) and the survey is submitted, the flattened record has the
  name of the ashram under two different keys with the same value: the top-level key
  \<open>'ashram_name'\<close> and the nested key
  \<open>'Property Ownership and Legal Documents_ashram_name'\<close>, whose text contains both the
  section name \<open>'ashram_name'\<close> and the section name of the Property section.
\<close>

theorem ashram_name_flattened_twice:
  assumes "makedirs_error e = None"
  shows "\<exists>final. final_survey_data (session (PDict (property_survey w)) t i) = Inr final
     \<and> map_of (flatten_nested_dict (survey_data_after (save_survey_data e final)) [] ''_'')
           ''ashram_name''
         = Some (na_if_blank (PStr (text_input w ''ashram_name'')))
     \<and> map_of (flatten_nested_dict (survey_data_after (save_survey_data e final)) [] ''_'')
           ''Property Ownership and Legal Documents_ashram_name''
         = Some (na_if_blank (PStr (text_input w ''ashram_name'')))
     \<and> py_in ''ashram_name'' ''Property Ownership and Legal Documents_ashram_name''
     \<and> py_in ''Property Ownership and Legal Documents''
          ''Property Ownership and Legal Documents_ashram_name''"
proof -
  let ?final = "[(''ashram_name'', PStr (text_input w ''ashram_name'')),
          (''Property Ownership and Legal Documents'', PDict (property_survey w)),
          (''Trust/Society Details & Documents'', t),
          (''Institutions Details & Documents'', i)]"
  have f: "final_survey_data (session (PDict (property_survey w)) t i) = Inr ?final"
    by (simp add: final_of_session property_survey_ashram_name)
  have after: "survey_data_after (save_survey_data e ?final)
      = ?final @ [(''timestamp'', PStr (strftime (now_stamp e) ''%Y-%m-%d %H:%M:%S''))]"
    using assms by (simp add: survey_data_after_save del: strftime.simps)
  have a: "map_of (flatten_nested_dict (survey_data_after (save_survey_data e ?final)) [] ''_'')
           ''ashram_name'' = Some (na_if_blank (PStr (text_input w ''ashram_name'')))"
    unfolding after by (simp only: append_Cons append_Nil) (rule flat_final_ashram_name, simp)
  have b: "map_of (flatten_nested_dict (survey_data_after (save_survey_data e ?final)) [] ''_'')
           ''Property Ownership and Legal Documents_ashram_name''
         = Some (na_if_blank (PStr (text_input w ''ashram_name'')))"
    unfolding after
    by (simp only: append_Cons append_Nil flat_final_property flat_property_ashram_name)
  have c: "py_in ''ashram_name'' ''Property Ownership and Legal Documents_ashram_name''"
    by code_simp
  have d: "py_in ''Property Ownership and Legal Documents''
          ''Property Ownership and Legal Documents_ashram_name''"
    by code_simp
  from f a b c d show ?thesis by blast
qed

theorem ashram_name_flattened_twice_witness:
  "makedirs_error env_ok = None
   \<and> (\<exists>final. final_survey_data (session (PDict (property_survey widgets0)) PNone PNone) = Inr final
     \<and> map_of (flatten_nested_dict (survey_data_after (save_survey_data env_ok final)) [] ''_'')
           ''ashram_name'' = Some (PStr ''St. Mary'')
     \<and> map_of (flatten_nested_dict (survey_data_after (save_survey_data env_ok final)) [] ''_'')
           ''Property Ownership and Legal Documents_ashram_name'' = Some (PStr ''St. Mary''))"
proof -
  have n: "na_if_blank (PStr (text_input widgets0 ''ashram_name'')) = PStr ''St. Mary''"
    by code_simp
  show ?thesis
    using ashram_name_flattened_twice [of env_ok widgets0 PNone PNone]
    unfolding n by (simp add: env_ok_simps)
qed



section \<open>The Column Orderer repeats a column\<close>

text \<open>
  Claim C1.  Every key is kept by the Column Orderer, but not every key appears once: in
  the sheet written for a survey whose Property section has been filled in, the column
  \<open>'Property Ownership and Legal Documents_ashram_name'\<close> appears twice in the header,
  once for the section name \<open>'ashram_name'\<close> and once for the section name of the
  Property section.
\<close>

theorem header_repeats_property_ashram_name:
  "(case submit env_ok
          (visit initial_session ''Property Ownership and Legal Documents''
             (property_survey widgets0)) of
      Inl x \<Rightarrow> None
    | Inr out \<Rightarrow>
        map_option
          (\<lambda>sh. count_list (header sh) ''Property Ownership and Legal Documents_ashram_name'')
          (written out))
   = Some 2"
proof -
  obtain out sh where
    "submit env_ok (session (PDict (property_survey widgets0)) PNone PNone) = Inr out"
    "written out = Some sh"
    "count_list (header sh) ''Property Ownership and Legal Documents_ashram_name'' = 2"
    using property_column_counted_twice [OF env_ok_simps(1) env_ok_simps(2)] by blast
  then show ?thesis
    by (simp add: session_visit_property)
qed

section \<open>The Record Store's file and messages\<close>

text \<open>
  Claim C8.  A survey submitted with the name of the ashram left blank is not written to
  a file whose name starts with \<open>Unknown_Ashram_\<close>: the submit action always puts the key
  \<open>ashram_name\<close> in the record, here with the empty text, so the default of line 81 is
  not used and the file name starts with the underscore that precedes the time.
\<close>

theorem blank_name_file_path:
  "(case submit env_ok
          (visit initial_session ''Property Ownership and Legal Documents''
             (property_survey widgets_blank)) of
      Inl x \<Rightarrow> None
    | Inr out \<Rightarrow> file_path out)
   = Some ''survey_results/_20240102_030405.xlsx''
   \<and> \<not> startswith ''_20240102_030405.xlsx'' ''Unknown_Ashram_''"
proof -
  have n: "(case map_of (property_survey widgets_blank) ''ashram_name'' of
         None \<Rightarrow> PStr ''N/A'' | Some v \<Rightarrow> v) = PStr []"
    by (simp add: property_survey_ashram_name widgets_blank_def)
  have "submit env_ok (session (PDict (property_survey widgets_blank)) PNone PNone) =
     Inr (try_save env_ok
       [(''ashram_name'', PStr []),
        (''Property Ownership and Legal Documents'', PDict (property_survey widgets_blank)),
        (''Trust/Society Details & Documents'', PNone),
        (''Institutions Details & Documents'', PNone),
        (''timestamp'', PStr (strftime (now_stamp env_ok) ''%Y-%m-%d %H:%M:%S''))]
       (sanitize_filename [] @ ''_'' @ strftime (now_file env_ok) ''%Y%m%d_%H%M%S'' @ ''.xlsx'')
       (''survey_results/'' @ sanitize_filename [] @ ''_''
          @ strftime (now_file env_ok) ''%Y%m%d_%H%M%S'' @ ''.xlsx''))"
    by (rule submit_run [OF env_ok_simps(1) n])
  then show ?thesis
    by (simp only: session_visit_property try_save_run [OF timestamp_key_final])
       (simp add: sanitize_blank env_ok_simps clock0_file del: strftime.simps)
qed

text \<open>
  Claim C5.  Saving a record with \<open>ashram_name = 'St. Mary'\<close> and no other answers, when
  the file operations succeed, writes the file \<open>St. Mary_<timestamp>.xlsx\<close> in the results
  directory (the sanitizer replaces neither the full stop nor the space), with the header
  row \<open>['timestamp', 'ashram_name']\<close> and the data row \<open>[<timestamp>, 'St. Mary']\<close>.  The
  file name does not start with \<open>St__Mary_\<close>.
\<close>

theorem st_mary_artifact:
  assumes "makedirs_error e = None" and "to_excel_error e = None" and "read_error e = None"
  shows "file_path (save_survey_data e [(''ashram_name'', PStr ''St. Mary'')])
           = Some (''survey_results/St. Mary_'' @ strftime (now_file e) ''%Y%m%d_%H%M%S'' @ ''.xlsx'')
     \<and> written (save_survey_data e [(''ashram_name'', PStr ''St. Mary'')])
           = Some \<lparr>header = [''timestamp'', ''ashram_name''],
                   row = [PStr (strftime (now_stamp e) ''%Y-%m-%d %H:%M:%S''), PStr ''St. Mary'']\<rparr>
     \<and> returned (save_survey_data e [(''ashram_name'', PStr ''St. Mary'')]) = Inr True"
proof -
  let ?stamp = "strftime (now_stamp e) ''%Y-%m-%d %H:%M:%S''"
  let ?d = "[(''ashram_name'', PStr ''St. Mary''), (''timestamp'', PStr ?stamp)]"
  have run: "save_survey_data e [(''ashram_name'', PStr ''St. Mary'')] =
     try_save e ?d
       (''St. Mary'' @ ''_'' @ strftime (now_file e) ''%Y%m%d_%H%M%S'' @ ''.xlsx'')
       (''survey_results/'' @ ''St. Mary'' @ ''_''
          @ strftime (now_file e) ''%Y%m%d_%H%M%S'' @ ''.xlsx'')"
    using save_survey_data_run [of e "[(''ashram_name'', PStr ''St. Mary'')]" "''St. Mary''"]
      assms(1)
    by (simp add: sanitize_st_mary del: strftime.simps)
  have flat: "flatten_nested_dict ?d [] ''_'' = ?d"
    by (simp add: stamp_not_blank st_mary_not_blank new_key_def dict_of_items_def
        del: strftime.simps na_if_blank.simps)
  have key: "''timestamp'' \<in> fst ` set (flatten_nested_dict ?d [] ''_'')"
    unfolding flat by simp
  show ?thesis
    unfolding run try_save_run [OF key] flat
    using assms(2,3) by (simp add: order_two_columns del: strftime.simps)
qed

theorem st_mary_artifact_witness:
  "makedirs_error env_ok = None \<and> to_excel_error env_ok = None \<and> read_error env_ok = None
   \<and> file_path (save_survey_data env_ok [(''ashram_name'', PStr ''St. Mary'')])
           = Some ''survey_results/St. Mary_20240102_030405.xlsx''
   \<and> written (save_survey_data env_ok [(''ashram_name'', PStr ''St. Mary'')])
           = Some \<lparr>header = [''timestamp'', ''ashram_name''],
                   row = [PStr ''2024-01-02 03:04:05'', PStr ''St. Mary'']\<rparr>
   \<and> returned (save_survey_data env_ok [(''ashram_name'', PStr ''St. Mary'')]) = Inr True"
  using st_mary_artifact [of env_ok]
  by (simp add: env_ok_simps clock0_stamp clock0_file del: strftime.simps)

theorem st_mary_file_name:
  "file_path (save_survey_data env_ok [(''ashram_name'', PStr ''St. Mary'')])
     = Some ''survey_results/St. Mary_20240102_030405.xlsx''
   \<and> \<not> startswith ''St. Mary_20240102_030405.xlsx'' ''St__Mary_''"
proof -
  have "file_path (save_survey_data env_ok [(''ashram_name'', PStr ''St. Mary'')])
     = Some (''survey_results/'' @ sanitize_filename ''St. Mary'' @ ''_''
          @ strftime (now_file env_ok) ''%Y%m%d_%H%M%S'' @ ''.xlsx'')"
    by (rule file_path_save) (simp_all add: env_ok_simps)
  then show ?thesis
    by (simp add: sanitize_st_mary env_ok_simps clock0_file del: strftime.simps)
qed

text \<open>
  Claim C3.  Once the results directory exists, and for a record whose \<open>ashram_name\<close> is
  text or missing, \<open>save_survey_data\<close> raises nothing: it returns \<open>True\<close> exactly when
  neither writing the sheet nor reading it back fails, and otherwise \<open>False\<close> with the
  error shown to the user.  An error of \<open>os.makedirs\<close> is raised before the \<open>try\<close>
  statement: it leaves \<open>save_survey_data\<close> and the submit action, and no message is shown.
\<close>

theorem guarded_errors_become_failure:
  assumes "makedirs_error e = None"
    and "(case map_of record ''ashram_name'' of
            None \<Rightarrow> PStr ''Unknown_Ashram'' | Some v \<Rightarrow> v) = PStr subject"
  shows "returned (save_survey_data e record)
           = Inr (to_excel_error e = None \<and> read_error e = None)
     \<and> (\<forall>x. to_excel_error e = Some x \<longrightarrow>
           shown (save_survey_data e record) = [Error_saving x])
     \<and> (\<forall>x. to_excel_error e = None \<and> read_error e = Some x \<longrightarrow>
           shown (save_survey_data e record) = [Error_saving x])"
  by (simp only: save_survey_data_run [OF assms] try_save_run [OF timestamp_key_flattened])
     simp

theorem guarded_errors_become_failure_witness:
  "makedirs_error (env_ok\<lparr>to_excel_error := Some OSError\<rparr>) = None
   \<and> (case map_of [(''ashram_name'', PStr ''St. Mary'')] ''ashram_name'' of
         None \<Rightarrow> PStr ''Unknown_Ashram'' | Some v \<Rightarrow> v) = PStr ''St. Mary''
   \<and> returned (save_survey_data (env_ok\<lparr>to_excel_error := Some OSError\<rparr>)
         [(''ashram_name'', PStr ''St. Mary'')]) = Inr False
   \<and> shown (save_survey_data (env_ok\<lparr>to_excel_error := Some OSError\<rparr>)
         [(''ashram_name'', PStr ''St. Mary'')]) = [Error_saving OSError]"
  using guarded_errors_become_failure
    [of "env_ok\<lparr>to_excel_error := Some OSError\<rparr>"
        "[(''ashram_name'', PStr ''St. Mary'')]" "''St. Mary''"]
  by (simp add: env_ok_simps)

theorem makedirs_error_propagates:
  "returned (save_survey_data (env_ok\<lparr>makedirs_error := Some OSError\<rparr>)
      [(''ashram_name'', PStr ''St. Mary'')]) = Inl OSError
   \<and> shown (save_survey_data (env_ok\<lparr>makedirs_error := Some OSError\<rparr>)
      [(''ashram_name'', PStr ''St. Mary'')]) = []
   \<and> (case submit (env_ok\<lparr>makedirs_error := Some OSError\<rparr>)
             (session (PDict (property_survey widgets0)) PNone PNone) of
         Inl x \<Rightarrow> Inl x
       | Inr out \<Rightarrow> returned out) = Inl OSError"
  by (simp add: save_survey_data_def submit_def final_of_session)

end
